theory Spec2Isabelle
  imports Complex_Main
begin

section \<open>Calendar tools of zero-calendar: the data model\<close>

text \<open>
  The theory embeds the object \<open>calendarTools\<close> (file \<open>ai-tools\<close> of the repository).
  Conventions of the embedding:
  \<^item> a JavaScript \<open>Date\<close> (and an ISO-8601 string that is parsed with \<open>new Date(...)\<close> or
    produced by \<open>toISOString()\<close>) is its \<open>getTime()\<close> value, an \<open>int\<close> of milliseconds
    since the epoch; only valid dates are modelled;
  \<^item> the local time zone of the process is a fixed offset \<open>tz\<close> (milliseconds east of UTC),
    passed to every function that reads wall-clock fields; a zone whose offset changes inside
    the scanned range is not modelled;
  \<^item> \<open>new Date()\<close> (the current instant) is the parameter \<open>now\<close>;
  \<^item> the imported collaborators \<open>getEvents\<close> and \<open>findAvailableTimeSlots\<close> are not part of
    the file; they are function parameters that return \<open>Inl err\<close> for a rejected promise and
    \<open>Inr v\<close> for a fulfilled one. A rejected promise that is not caught rejects the caller:
    the model returns \<open>Inl\<close>;
  \<^item> the parameter \<open>minDurationMinutes\<close> is any number, whole or fractional: a \<open>rat\<close>;
  \<^item> a JavaScript number that is only ever produced by \<open>+\<close>, \<open>-\<close>, \<open>*\<close> and by division by a
    nonzero constant is a \<open>rat\<close> (binary rounding of doubles is not modelled); the two fields
    that divide by a computed value carry the IEEE special values explicitly (\<open>jsnum\<close>);
  \<^item> \<open>console.error\<close> is not modelled.
\<close>

datatype error = Rejected string

record event =
  ev_id :: string
  title :: "string option"
  description :: "string option"
  location :: "string option"
  ev_start :: int
  ev_end :: int
  allDay :: bool
  categories :: "string list option"

text \<open>An element of \<open>freeSlots\<close>: \<open>{ start, end, duration, label }\<close>.\<close>

record slot =
  slot_start :: int
  slot_end :: int
  duration :: int
  label :: string

type_synonym fetch = "string \<Rightarrow> int \<Rightarrow> int \<Rightarrow> error + event list"

section \<open>The date-fns functions the file imports\<close>

definition msPerDay :: int where
  "msPerDay = 1000 * 60 * 60 * 24"

definition startOfDay :: "int \<Rightarrow> int \<Rightarrow> int" where
  "startOfDay tz t = t - (t + tz) mod msPerDay"

definition endOfDay :: "int \<Rightarrow> int \<Rightarrow> int" where
  "endOfDay tz t = startOfDay tz t + msPerDay - 1"

definition addDays :: "int \<Rightarrow> int \<Rightarrow> int" where
  "addDays t n = t + n * msPerDay"

text \<open>\<open>d.setHours(h, 0, 0, 0)\<close>: the same local calendar day, at \<open>h\<close> o'clock sharp.\<close>

definition setHours :: "int \<Rightarrow> int \<Rightarrow> int \<Rightarrow> int" where
  "setHours tz t h = startOfDay tz t + h * (1000 * 60 * 60)"

definition isSameDay :: "int \<Rightarrow> int \<Rightarrow> int \<Rightarrow> bool" where
  "isSameDay tz a b = (startOfDay tz a = startOfDay tz b)"

text \<open>
  \<open>areIntervalsOverlapping\<close> without the \<open>inclusive\<close> option, as date-fns 3 and 4 compute it:
  each interval's two ends are put in order first, then the test is the half-open one of
  the specification (\<open>a.start < b.end\<close> and \<open>b.start < a.end\<close>). On intervals that have
  \<open>start \<le> end\<close> it is that test as it stands (lemma \<open>areIntervalsOverlapping_ordered\<close>);
  date-fns 2 computes the same on such intervals and raises a \<open>RangeError\<close> on the others.
\<close>

definition areIntervalsOverlapping :: "int \<times> int \<Rightarrow> int \<times> int \<Rightarrow> bool" where
  "areIntervalsOverlapping l r =
     (let leftStartTime = min (fst l) (snd l); leftEndTime = max (fst l) (snd l);
          rightStartTime = min (fst r) (snd r); rightEndTime = max (fst r) (snd r)
      in leftStartTime < rightEndTime \<and> rightStartTime < leftEndTime)"

subsection \<open>\<open>format\<close>\<close>

text \<open>
  The civil date of a day number (days since 1970-01-01 in local time), by the usual
  era/day-of-era computation of the proleptic Gregorian calendar; the result is
  (year, month, day of month).
\<close>

definition civil :: "int \<Rightarrow> int \<times> int \<times> int" where
  "civil days =
     (let z = days + 719468;
          era = z div 146097;
          doe = z - era * 146097;
          yoe = (doe - doe div 1460 + doe div 36524 - doe div 146096) div 365;
          doy = doe - (365 * yoe + yoe div 4 - yoe div 100);
          mp = (5 * doy + 2) div 153;
          d = doy - (153 * mp + 2) div 5 + 1;
          m = (if mp < 10 then mp + 3 else mp - 9);
          y = yoe + era * 400 + (if m \<le> 2 then 1 else 0)
      in (y, m, d))"

definition localDay :: "int \<Rightarrow> int \<Rightarrow> int" where
  "localDay tz t = (t + tz) div msPerDay"

definition localMs :: "int \<Rightarrow> int \<Rightarrow> int" where
  "localMs tz t = (t + tz) mod msPerDay"

fun digits :: "nat \<Rightarrow> string" where
  "digits n = (if n < 10 then [''0123456789'' ! n]
               else digits (n div 10) @ [''0123456789'' ! (n mod 10)])"

declare digits.simps [simp del]

definition addLeadingZeros :: "int \<Rightarrow> nat \<Rightarrow> string" where
  "addLeadingZeros n w =
     (let ds = digits (nat \<bar>n\<bar>)
      in (if n < 0 then ''-'' else '''') @ replicate (w - length ds) CHR ''0'' @ ds)"

text \<open>Pattern \<open>yyyy-MM-dd\<close>; a year before 1 is printed as its distance from year 1.\<close>

definition format_yMd :: "int \<Rightarrow> int \<Rightarrow> string" where
  "format_yMd tz t =
     (case civil (localDay tz t) of (y, m, d) \<Rightarrow>
        addLeadingZeros (if y > 0 then y else 1 - y) 4 @ ''-'' @
        addLeadingZeros m 2 @ ''-'' @ addLeadingZeros d 2)"

text \<open>Pattern \<open>h:mm a\<close>: twelve-hour clock, minutes on two digits, \<open>AM\<close> or \<open>PM\<close>.\<close>

definition format_hmma :: "int \<Rightarrow> int \<Rightarrow> string" where
  "format_hmma tz t =
     (let ms = localMs tz t; h = ms div 3600000; mi = (ms div 60000) mod 60
      in addLeadingZeros (if h mod 12 = 0 then 12 else h mod 12) 1 @ '':'' @
         addLeadingZeros mi 2 @ '' '' @ (if h < 12 then ''AM'' else ''PM''))"

text \<open>Pattern \<open>EEE, MMM d, h:mm a\<close>; day 0 (1970-01-01) was a Thursday.\<close>

definition format_EMdhmma :: "int \<Rightarrow> int \<Rightarrow> string" where
  "format_EMdhmma tz t =
     (case civil (localDay tz t) of (y, m, d) \<Rightarrow>
        [''Thu'', ''Fri'', ''Sat'', ''Sun'', ''Mon'', ''Tue'', ''Wed''] ! nat (localDay tz t mod 7) @
        '', '' @
        [''Jan'', ''Feb'', ''Mar'', ''Apr'', ''May'', ''Jun'',
         ''Jul'', ''Aug'', ''Sep'', ''Oct'', ''Nov'', ''Dec''] ! nat (m - 1) @
        '' '' @ addLeadingZeros d 1 @ '', '' @ format_hmma tz t)"

section \<open>\<open>findFreeTimeSlots\<close>\<close>

text \<open>The object pushed onto \<open>freeSlots\<close> for the gap from \<open>currentEventEnd\<close> to
  \<open>nextEventStart\<close>.\<close>

definition mkSlot :: "int \<Rightarrow> int \<Rightarrow> int \<Rightarrow> slot" where
  "mkSlot tz currentEventEnd nextEventStart =
     \<lparr> slot_start = currentEventEnd,
       slot_end = nextEventStart,
       duration = (nextEventStart - currentEventEnd) div (1000 * 60),
       label = format_EMdhmma tz currentEventEnd @ '' - '' @ format_hmma tz nextEventStart \<rparr>"

text \<open>
  The inner \<open>for\<close> loop over \<open>augmentedEvents\<close>, a list of (start, end) pairs: for each
  adjacent pair, a slot from the end of the first to the start of the second when the gap
  is at least \<open>minDurationMinutes\<close>. The gap is a whole number of milliseconds; the minimum
  is not rounded.
\<close>

fun gapLoop :: "int \<Rightarrow> rat \<Rightarrow> (int \<times> int) list \<Rightarrow> slot list" where
  "gapLoop tz minDurationMinutes (cur # nxt # rest) =
     (if of_int (fst nxt - snd cur) \<ge> minDurationMinutes * 60 * 1000
      then [mkSlot tz (snd cur) (fst nxt)] else []) @
     gapLoop tz minDurationMinutes (nxt # rest)"
| "gapLoop tz minDurationMinutes _ = []"

text \<open>The interval \<open>{ start: eventStart, end: eventEnd }\<close> of an event.\<close>

definition interval :: "event \<Rightarrow> int \<times> int" where
  "interval event = (ev_start event, ev_end event)"

text \<open>
  One iteration of the \<open>while\<close> loop: the slots it pushes for the day of \<open>currentDay\<close>
  (none when the iteration takes the \<open>continue\<close> branch).
\<close>

definition scanDay :: "int \<Rightarrow> int \<Rightarrow> int \<Rightarrow> rat \<Rightarrow> event list \<Rightarrow> int \<Rightarrow> slot list" where
  "scanDay tz start end' minDurationMinutes sortedEvents currentDay =
     (let dayStart = setHours tz currentDay 9;
          dayEnd = setHours tz currentDay 17
      in if dayEnd < start \<or> dayStart > end' then []
         else
           let effectiveDayStart = (if dayStart < start then start else dayStart);
               effectiveDayEnd = (if dayEnd > end' then end' else dayEnd);
               dayEvents = filter (\<lambda>event.
                   areIntervalsOverlapping (effectiveDayStart, effectiveDayEnd)
                     (interval event)) sortedEvents;
               augmentedEvents =
                 [(effectiveDayStart, effectiveDayStart)] @
                 map interval dayEvents @
                 [(effectiveDayEnd, effectiveDayEnd)]
           in gapLoop tz minDurationMinutes augmentedEvents)"

function dayLoop ::
  "int \<Rightarrow> int \<Rightarrow> int \<Rightarrow> rat \<Rightarrow> event list \<Rightarrow> int \<Rightarrow> int \<Rightarrow> slot list \<Rightarrow> slot list" where
  "dayLoop tz start end' minDurationMinutes sortedEvents currentDay lastDay freeSlots =
     (if currentDay \<le> lastDay
      then dayLoop tz start end' minDurationMinutes sortedEvents (addDays currentDay 1) lastDay
             (freeSlots @ scanDay tz start end' minDurationMinutes sortedEvents currentDay)
      else freeSlots)"
  by pat_completeness auto
termination
  by (relation "measure (\<lambda>(tz, start, end', m, evs, currentDay, lastDay, freeSlots).
        nat (lastDay - currentDay + 1))")
     (auto simp: addDays_def msPerDay_def)

declare dayLoop.simps [simp del]

text \<open>The result of \<open>findFreeTimeSlots\<close>. The parameter \<open>minDurationMinutes\<close> (30 when the
  caller leaves it out) is always passed explicitly.\<close>

record freeTime =
  freeSlots :: "slot list"
  totalFreeSlots :: nat
  totalFreeDurationMinutes :: int

text \<open>The body of \<open>findFreeTimeSlots\<close> after the fetch: the stable sort by start, then the
  loop over the days from \<open>startOfDay(start)\<close> to \<open>endOfDay(end)\<close>.\<close>

definition scanRange :: "int \<Rightarrow> int \<Rightarrow> int \<Rightarrow> rat \<Rightarrow> event list \<Rightarrow> slot list" where
  "scanRange tz start end' minDurationMinutes events =
     (let sortedEvents = sort_key ev_start events;
          currentDay = startOfDay tz start;
          lastDay = endOfDay tz end'
      in dayLoop tz start end' minDurationMinutes sortedEvents currentDay lastDay [])"

definition findFreeTimeSlots ::
  "int \<Rightarrow> fetch \<Rightarrow> string \<Rightarrow> int \<Rightarrow> int \<Rightarrow> rat \<Rightarrow> error + freeTime" where
  "findFreeTimeSlots tz getEvents userId startDate endDate minDurationMinutes =
     (case getEvents userId startDate endDate of
        Inl err \<Rightarrow> Inl err
      | Inr events \<Rightarrow>
          let slots = scanRange tz startDate endDate minDurationMinutes events
          in Inr \<lparr> freeSlots = slots,
                   totalFreeSlots = length slots,
                   totalFreeDurationMinutes = foldl (\<lambda>sum slot. sum + duration slot) 0 slots \<rparr>)"

section \<open>\<open>getCalendarAnalytics\<close>\<close>

text \<open>
  The value of a division whose divisor is computed: finite, infinite (\<open>Infinity\<close> or
  \<open>-Infinity\<close>; the sign is not modelled) or \<open>NaN\<close>.
\<close>

datatype jsnum = Finite rat | Infinite | NaN

definition js_div :: "rat \<Rightarrow> rat \<Rightarrow> jsnum" where
  "js_div x y = (if y \<noteq> 0 then Finite (x / y) else if x \<noteq> 0 then Infinite else NaN)"

text \<open>A function of finite numbers that keeps \<open>Infinity\<close> and \<open>NaN\<close> as they are
  (rounding, and scaling by a positive constant).\<close>

definition js_lift :: "(rat \<Rightarrow> rat) \<Rightarrow> jsnum \<Rightarrow> jsnum" where
  "js_lift f x = (case x of Finite q \<Rightarrow> Finite (f q) | Infinite \<Rightarrow> Infinite | NaN \<Rightarrow> NaN)"

text \<open>\<open>Math.round\<close>: the nearest integer, a tie going up.\<close>

definition Math_round :: "rat \<Rightarrow> rat" where
  "Math_round x = of_int \<lfloor>x + 1 / 2\<rfloor>"

text \<open>\<open>Math.round((minutes / 60) * 10) / 10\<close>.\<close>

definition hours1 :: "rat \<Rightarrow> rat" where
  "hours1 minutes = Math_round ((minutes / 60) * 10) / 10"

text \<open>
  \<open>obj[key] = (obj[key] || 0) + v\<close> on an object whose own keys are kept in insertion
  order: an association list. (Keys are assumed not to be array indices or names of
  \<open>Object.prototype\<close>.)
\<close>

fun addTo :: "string \<Rightarrow> 'v::{zero,plus} \<Rightarrow> (string \<times> 'v) list \<Rightarrow> (string \<times> 'v) list" where
  "addTo key v [] = [(key, 0 + v)]"
| "addTo key v ((k, x) # rest) =
     (if k = key then (k, x + v) # rest else (k, x) # addTo key v rest)"

record analytics =
  totalMeetingMinutes :: rat
  totalMeetingHours :: rat
  meetingCount :: nat
  averageMeetingLength :: rat
  averageDailyMeetingMinutes :: jsnum
  averageDailyMeetingHours :: jsnum
  categoryCounts :: "(string \<times> nat) list"
  busiestDay :: string
  busiestDayMinutes :: rat
  busiestDayHours :: rat
  dailyMeetingMinutes :: "(string \<times> rat) list"

text \<open>
  The body of \<open>events.forEach\<close>; the state (tot, cnt, cats, daily) holds the
  variables \<open>totalMeetingMinutes\<close>, \<open>meetingCount\<close>, \<open>categoryCounts\<close> and
  \<open>dailyMeetingMinutes\<close>.
\<close>

type_synonym tally = "rat \<times> nat \<times> (string \<times> nat) list \<times> (string \<times> rat) list"

definition tallyEvent :: "int \<Rightarrow> tally \<Rightarrow> event \<Rightarrow> tally" where
  "tallyEvent tz st event =
     (case st of (tot, cnt, cats, daily) \<Rightarrow>
        if allDay event then st
        else
          let durationMinutes = of_int (ev_end event - ev_start event) / (1000 * 60);
              cats' =
                (case categories event of
                   None \<Rightarrow> addTo ''Uncategorized'' 1 cats
                 | Some cs \<Rightarrow>
                     if length cs > 0
                     then foldl (\<lambda>acc category. addTo category 1 acc) cats cs
                     else addTo ''Uncategorized'' 1 cats);
              dateKey = format_yMd tz (ev_start event)
          in (tot + durationMinutes, cnt + 1, cats', addTo dateKey durationMinutes daily))"

text \<open>The body of \<open>Object.entries(dailyMeetingMinutes).forEach\<close>; the state is
  (busiestDay, busiestDayMinutes).\<close>

definition busier :: "string \<times> rat \<Rightarrow> string \<times> rat \<Rightarrow> string \<times> rat" where
  "busier st entry = (if snd entry > snd st then entry else st)"

definition dayCount :: "int \<Rightarrow> int \<Rightarrow> int" where
  "dayCount start end' = \<lceil>(of_int (end' - start) :: rat) / (1000 * 60 * 60 * 24)\<rceil>"

definition analyse :: "int \<Rightarrow> int \<Rightarrow> int \<Rightarrow> event list \<Rightarrow> analytics" where
  "analyse tz start end' events =
     (case foldl (tallyEvent tz) (0, 0, [], []) events of
        (tot, cnt, cats, daily) \<Rightarrow>
          let averageDaily = js_div tot (of_int (dayCount start end'));
              busiest = foldl busier ('''', 0) daily
          in \<lparr> totalMeetingMinutes = tot,
               totalMeetingHours = hours1 tot,
               meetingCount = cnt,
               averageMeetingLength =
                 (if cnt > 0 then Math_round (tot / of_nat cnt) else 0),
               averageDailyMeetingMinutes = js_lift Math_round averageDaily,
               averageDailyMeetingHours = js_lift hours1 averageDaily,
               categoryCounts = cats,
               busiestDay = fst busiest,
               busiestDayMinutes = snd busiest,
               busiestDayHours = hours1 (snd busiest),
               dailyMeetingMinutes = daily \<rparr>)"

definition getCalendarAnalytics ::
  "int \<Rightarrow> fetch \<Rightarrow> string \<Rightarrow> int \<Rightarrow> int \<Rightarrow> error + analytics" where
  "getCalendarAnalytics tz getEvents userId startDate endDate =
     (case getEvents userId startDate endDate of
        Inl err \<Rightarrow> Inl err
      | Inr events \<Rightarrow> Inr (analyse tz startDate endDate events))"

section \<open>\<open>findEvents\<close> and \<open>findOptimalMeetingTime\<close>\<close>

text \<open>\<open>toLowerCase\<close> on the ASCII letters, and \<open>includes\<close>.\<close>

definition toLowerCase :: "string \<Rightarrow> string" where
  "toLowerCase s =
     map (\<lambda>c. if (65::nat) \<le> of_char c \<and> of_char c \<le> (90::nat)
              then char_of (of_char c + (32::nat)) else c) s"

fun startsWith :: "string \<Rightarrow> string \<Rightarrow> bool" where
  "startsWith s [] = True"
| "startsWith [] (q # qs) = False"
| "startsWith (c # cs) (q # qs) = (c = q \<and> startsWith cs qs)"

fun includes_str :: "string \<Rightarrow> string \<Rightarrow> bool" where
  "includes_str [] q = startsWith [] q"
| "includes_str (c # cs) q = (startsWith (c # cs) q \<or> includes_str cs q)"

text \<open>\<open>field?.toLowerCase().includes(lowerQuery)\<close>: an absent field does not match.\<close>

definition fieldMatches :: "string option \<Rightarrow> string \<Rightarrow> bool" where
  "fieldMatches field lowerQuery =
     (case field of None \<Rightarrow> False | Some text \<Rightarrow> includes_str (toLowerCase text) lowerQuery)"

text \<open>The \<open>catch\<close> block returns the empty list: the result is never \<open>Inl\<close>.\<close>

definition findEvents :: "fetch \<Rightarrow> string \<Rightarrow> string \<Rightarrow> int \<Rightarrow> error + event list" where
  "findEvents getEvents userId query now =
     (let thirtyDaysLater = addDays now 30
      in case getEvents userId now thirtyDaysLater of
           Inl err \<Rightarrow> Inr []
         | Inr events \<Rightarrow>
             let lowerQuery = toLowerCase query
             in Inr (filter (\<lambda>event.
                   fieldMatches (title event) lowerQuery \<or>
                   fieldMatches (description event) lowerQuery \<or>
                   fieldMatches (location event) lowerQuery) events))"

text \<open>
  \<open>findAvailableTimeSlots\<close> is imported from \<open>calendar-utils\<close>; it is a parameter here, and
  its start date is passed through as the string it came in.
\<close>

definition findOptimalMeetingTime ::
  "(string \<Rightarrow> string \<Rightarrow> int \<Rightarrow> error + 'a list) \<Rightarrow>
   string \<Rightarrow> string list \<Rightarrow> int \<Rightarrow> string \<Rightarrow> string \<Rightarrow> error + 'a list" where
  "findOptimalMeetingTime findAvailableTimeSlots userId participantIds durationMinutes
       startDate endDate =
     (case findAvailableTimeSlots userId startDate durationMinutes of
        Inl err \<Rightarrow> Inr []
      | Inr slots \<Rightarrow> Inr slots)"

section \<open>\<open>suggestRescheduling\<close>\<close>

record eventSummary =
  sum_id :: string
  sum_title :: "string option"
  sum_start :: int
  sum_end :: int
  sum_duration :: int

text \<open>The two shapes of the result: \<open>{ success: false, message }\<close> and
  \<open>{ success: true, event, alternativeSlots }\<close>.\<close>

datatype suggestion = Failure string | Success eventSummary "slot list"

definition suggestRescheduling ::
  "int \<Rightarrow> fetch \<Rightarrow> string \<Rightarrow> string \<Rightarrow> int \<Rightarrow> error + suggestion" where
  "suggestRescheduling tz getEvents userId eventId now =
     (let futureDate = addDays now 14
      in case getEvents userId now futureDate of
           Inl err \<Rightarrow> Inl err
         | Inr events \<Rightarrow>
             (case find (\<lambda>event. ev_id event = eventId) events of
                None \<Rightarrow> Inr (Failure ''Event not found'')
              | Some eventToReschedule \<Rightarrow>
                  let eventStart = ev_start eventToReschedule;
                      eventEnd = ev_end eventToReschedule;
                      durationMinutes = (eventEnd - eventStart) div (1000 * 60)
                  in (case findFreeTimeSlots tz getEvents userId now futureDate
                             (of_int durationMinutes) of
                        Inl err \<Rightarrow> Inl err
                      | Inr result \<Rightarrow>
                          let alternativeSlots =
                                take 3 (filter (\<lambda>slot. \<not> isSameDay tz (slot_start slot) eventStart)
                                          (freeSlots result))
                          in Inr (Success
                               \<lparr> sum_id = ev_id eventToReschedule,
                                 sum_title = title eventToReschedule,
                                 sum_start = ev_start eventToReschedule,
                                 sum_end = ev_end eventToReschedule,
                                 sum_duration = durationMinutes \<rparr>
                               alternativeSlots))))"

section \<open>Sample data\<close>

text \<open>
  Concrete inputs for the evaluations below. \<open>onDay d h mi\<close> is the instant \<open>h:mi\<close> UTC on the
  \<open>d\<close>-th day after Monday 2024-01-15; \<open>meeting\<close> is a timed event without categories;
  \<open>snapshot events\<close> is a repository that answers every fetch with \<open>events\<close>, and \<open>failing\<close>
  one whose fetch is rejected.
\<close>

definition onDay :: "int \<Rightarrow> int \<Rightarrow> int \<Rightarrow> int" where
  "onDay d h mi = 1705276800000 + d * 86400000 + h * 3600000 + mi * 60000"

definition meeting :: "string \<Rightarrow> int \<Rightarrow> int \<Rightarrow> event" where
  "meeting i s e =
     \<lparr> ev_id = i, title = Some ''Sync'', description = None, location = None,
       ev_start = s, ev_end = e, allDay = False, categories = None \<rparr>"

definition snapshot :: "event list \<Rightarrow> fetch" where
  "snapshot events = (\<lambda>userId start end'. Inr events)"

definition failing :: fetch where
  "failing = (\<lambda>userId start end'. Inl (Rejected ''fetch failed''))"

definition span :: "slot \<Rightarrow> int \<times> int" where
  "span s = (slot_start s, slot_end s)"

text \<open>The invariant of the data model: no event ends before it starts.\<close>

definition wellFormed :: "event list \<Rightarrow> bool" where
  "wellFormed events = list_all (\<lambda>e. ev_start e \<le> ev_end e) events"

text \<open>09:00-10:00 and 11:30-12:30 on the Monday.\<close>

definition twoMeetings :: "event list" where
  "twoMeetings =
     [meeting ''standup'' (onDay 0 9 0) (onDay 0 10 0),
      meeting ''lunch'' (onDay 0 11 30) (onDay 0 12 30)]"


text \<open>A workshop 09:00-17:00 with a review 10:00-11:00 inside it.\<close>

definition nested :: "event list" where
  "nested =
     [meeting ''workshop'' (onDay 0 9 0) (onDay 0 17 0),
      meeting ''review'' (onDay 0 10 0) (onDay 0 11 0)]"

text \<open>An event with the given categories, and an all-day event.\<close>

definition tagged :: "string list \<Rightarrow> event \<Rightarrow> event" where
  "tagged cs e = e\<lparr>categories := Some cs\<rparr>"

definition holiday :: "string \<Rightarrow> int \<Rightarrow> int \<Rightarrow> event" where
  "holiday i s e = (meeting i s e)\<lparr>allDay := True\<rparr>"

text \<open>The example of the specification: 60 minutes in category work, 30 minutes without
  category; and a variant of 60 and 31 minutes.\<close>

definition sixtyAndThirty :: "event list" where
  "sixtyAndThirty =
     [tagged [''work''] (meeting ''a'' (onDay 0 9 0) (onDay 0 10 0)),
      meeting ''b'' (onDay 0 10 0) (onDay 0 10 30)]"

definition sixtyAndThirtyOne :: "event list" where
  "sixtyAndThirtyOne =
     [meeting ''a'' (onDay 0 9 0) (onDay 0 10 0),
      meeting ''b'' (onDay 0 10 0) (onDay 0 10 31)]"

text \<open>A target on Monday 09:00-09:30; on Tuesday a meeting 09:00-11:00 and an event whose
  start (12:00) lies after its end (10:00).\<close>

definition withReversed :: "event list" where
  "withReversed =
     [meeting ''target'' (onDay 0 9 0) (onDay 0 9 30),
      meeting ''early'' (onDay 1 9 0) (onDay 1 11 0),
      meeting ''reversed'' (onDay 1 12 0) (onDay 1 10 0)]"

text \<open>A \<open>findAvailableTimeSlots\<close> whose promise is rejected.\<close>

definition unavailable :: "string \<Rightarrow> string \<Rightarrow> int \<Rightarrow> error + slot list" where
  "unavailable = (\<lambda>userId startDate durationMinutes. Inl (Rejected ''timeout''))"

text \<open>The field \<open>alternativeSlots\<close> of a result of \<open>suggestRescheduling\<close> (absent from a
  failure: the empty list here).\<close>

fun alternativeSlots :: "suggestion \<Rightarrow> slot list" where
  "alternativeSlots (Success event alternatives) = alternatives"
| "alternativeSlots (Failure message) = []"

section \<open>Properties of the scan\<close>

lemma startOfDay_addDays: "startOfDay tz (addDays t 1) = addDays (startOfDay tz t) 1"
  by (simp add: startOfDay_def addDays_def add.commute add.left_commute)

lemma setHours_addDays: "setHours tz (addDays t 1) h = setHours tz t h + msPerDay"
  by (simp add: setHours_def startOfDay_addDays) (simp add: addDays_def)

lemma gapLoop_gap:
  "s \<in> set (gapLoop tz m ps) \<Longrightarrow>
     m * 60 * 1000 \<le> of_int (slot_end s - slot_start s) \<and>
     duration s = (slot_end s - slot_start s) div (1000 * 60)"
  by (induction tz m ps rule: gapLoop.induct) (auto simp: mkSlot_def split: if_splits)

lemma gapLoop_start:
  "s \<in> set (gapLoop tz m (xs @ [z])) \<Longrightarrow> slot_start s \<in> snd ` set xs"
proof (induction xs)
  case Nil
  then show ?case by simp
next
  case (Cons a xs)
  then show ?case
    by (cases xs) (auto simp: mkSlot_def split: if_splits)
qed

lemma gapLoop_end:
  "s \<in> set (gapLoop tz m (a # xs)) \<Longrightarrow> slot_end s \<in> fst ` set xs"
proof (induction xs arbitrary: a)
  case Nil
  then show ?case by simp
next
  case (Cons b xs)
  from Cons.prems consider "s = mkSlot tz (snd a) (fst b)" | "s \<in> set (gapLoop tz m (b # xs))"
    by (auto split: if_splits)
  then show ?case
  proof cases
    case 1
    then show ?thesis by (simp add: mkSlot_def)
  next
    case 2
    from Cons.IH [OF 2] show ?thesis by simp
  qed
qed

lemma gapLoop_sorted:
  assumes "0 \<le> m" and "sorted (map fst es)" and "\<forall>p \<in> set es. fst p \<le> snd p"
  shows "sorted_wrt (\<lambda>s t. slot_end s \<le> slot_start t) (gapLoop tz m (a # es @ [z]))"
  using assms(2,3)
proof (induction es arbitrary: a)
  case Nil
  then show ?case by simp
next
  case (Cons e es)
  have tail: "sorted_wrt (\<lambda>s t. slot_end s \<le> slot_start t) (gapLoop tz m (e # es @ [z]))"
    using Cons.IH [of e] Cons.prems by simp
  have later: "fst e \<le> slot_start t" if "t \<in> set (gapLoop tz m (e # es @ [z]))" for t
  proof -
    from that have "slot_start t \<in> snd ` set (e # es)"
      using gapLoop_start [of t tz m "e # es" z] by simp
    then obtain p where p: "p \<in> set (e # es)" "slot_start t = snd p" by blast
    with Cons.prems have "fst e \<le> fst p" "fst p \<le> snd p" by auto
    with p show ?thesis by simp
  qed
  show ?case
    using tail later by (auto simp: mkSlot_def)
qed

lemma gapLoop_within:
  assumes "lo \<le> snd a" and "fst z \<le> hi"
    and "\<forall>p \<in> set es. lo \<le> snd p \<and> fst p \<le> hi"
    and "s \<in> set (gapLoop tz m (a # es @ [z]))"
  shows "lo \<le> slot_start s \<and> slot_end s \<le> hi"
proof -
  from assms(4) have "slot_start s \<in> snd ` set (a # es)"
    using gapLoop_start [of s tz m "a # es" z] by simp
  moreover from assms(4) have "slot_end s \<in> fst ` set (es @ [z])"
    by (rule gapLoop_end)
  ultimately show ?thesis using assms(1-3) by auto
qed


lemma areIntervalsOverlapping_ordered:
  "a \<le> b \<Longrightarrow> c \<le> d \<Longrightarrow> areIntervalsOverlapping (a, b) (c, d) \<longleftrightarrow> a < d \<and> c < b"
  by (simp add: areIntervalsOverlapping_def Let_def)

lemma overlap_wellformed:
  assumes "ev_start e \<le> ev_end e" and "areIntervalsOverlapping (a, b) (interval e)"
  shows "min a b < ev_end e \<and> ev_start e < max a b"
  using assms by (auto simp: areIntervalsOverlapping_def interval_def Let_def)

lemma scanDay_gap:
  "s \<in> set (scanDay tz start end' m evs day) \<Longrightarrow>
     m * 60 * 1000 \<le> of_int (slot_end s - slot_start s) \<and>
     duration s = (slot_end s - slot_start s) div (1000 * 60)"
  unfolding scanDay_def Let_def
  by (auto split: if_splits dest: gapLoop_gap)

lemma scanDay_sorted:
  assumes "0 \<le> m" and "sorted (map ev_start evs)" and "\<forall>e \<in> set evs. ev_start e \<le> ev_end e"
  shows "sorted_wrt (\<lambda>s t. slot_end s \<le> slot_start t) (scanDay tz start end' m evs day)"
proof -
  have "sorted_wrt (\<lambda>s t. slot_end s \<le> slot_start t)
          (gapLoop tz m ((S, S) # map interval (filter P evs) @ [(E, E)]))" for S E P
  proof (rule gapLoop_sorted [OF assms(1)])
    have "fst \<circ> interval = ev_start"
      by (rule ext) (simp add: interval_def)
    with sorted_filter [OF assms(2), of P] show "sorted (map fst (map interval (filter P evs)))"
      by simp
    from assms(3) show "\<forall>p \<in> set (map interval (filter P evs)). fst p \<le> snd p"
      by (auto simp: interval_def)
  qed
  then show ?thesis
    unfolding scanDay_def Let_def by simp
qed

lemma scanDay_within:
  assumes "\<forall>e \<in> set evs. ev_start e \<le> ev_end e"
    and "s \<in> set (scanDay tz start end' m evs day)"
  shows "setHours tz day 9 \<le> slot_start s \<and> slot_end s \<le> setHours tz day 17"
proof -
  define ds where "ds = setHours tz day 9"
  define de where "de = setHours tz day 17"
  define S where "S = (if ds < start then start else ds)"
  define E where "E = (if de > end' then end' else de)"
  have dsde: "ds \<le> de" by (simp add: ds_def de_def setHours_def)
  from assms(2) have run: "\<not> (de < start \<or> ds > end')"
    and mem: "s \<in> set (gapLoop tz m ((S, S) #
        map interval (filter (\<lambda>e. areIntervalsOverlapping (S, E) (interval e)) evs) @ [(E, E)]))"
    unfolding scanDay_def Let_def ds_def de_def S_def E_def
    by (auto split: if_splits)
  from run dsde have bounds: "ds \<le> S" "S \<le> de" "ds \<le> E" "E \<le> de"
    by (auto simp: S_def E_def)
  have "lo \<le> snd p \<and> fst p \<le> hi"
    if "p \<in> set (map interval (filter (\<lambda>e. areIntervalsOverlapping (S, E) (interval e)) evs))"
      and "lo = ds" and "hi = de" for p lo hi
  proof -
    from that(1) obtain e where e: "e \<in> set evs" "areIntervalsOverlapping (S, E) (interval e)"
      "p = interval e" by auto
    with assms(1) have "min S E < ev_end e \<and> ev_start e < max S E"
      using overlap_wellformed by blast
    with bounds e(3) that(2,3) show ?thesis by (auto simp: interval_def)
  qed
  then have "ds \<le> slot_start s \<and> slot_end s \<le> de"
    using gapLoop_within [OF _ _ _ mem, of ds de] bounds by simp
  then show ?thesis by (simp add: ds_def de_def)
qed

lemma dayLoop_all:
  assumes "\<And>day s. s \<in> set (scanDay tz start end' m evs day) \<Longrightarrow> P s"
  shows "\<forall>s \<in> set acc. P s \<Longrightarrow> \<forall>s \<in> set (dayLoop tz start end' m evs cur lastDay acc). P s"
  using assms
proof (induction tz start end' m evs cur lastDay acc rule: dayLoop.induct)
  case (1 tz start end' m evs cur lastDay acc)
  show ?case
  proof (cases "cur \<le> lastDay")
    case True
    have "\<forall>s \<in> set (acc @ scanDay tz start end' m evs cur). P s"
      using "1.prems" by auto
    from "1.IH" [OF True this "1.prems"(2)] True show ?thesis
      by (subst dayLoop.simps) simp
  next
    case False
    with "1.prems"(1) show ?thesis by (subst dayLoop.simps) simp
  qed
qed

lemma dayLoop_sorted:
  assumes "0 \<le> m" and "sorted (map ev_start evs)" and "\<forall>e \<in> set evs. ev_start e \<le> ev_end e"
  shows "sorted_wrt (\<lambda>s t. slot_end s \<le> slot_start t) acc \<Longrightarrow>
         \<forall>s \<in> set acc. slot_end s \<le> setHours tz cur 9 \<Longrightarrow>
         sorted_wrt (\<lambda>s t. slot_end s \<le> slot_start t) (dayLoop tz start end' m evs cur lastDay acc)"
  using assms
proof (induction tz start end' m evs cur lastDay acc rule: dayLoop.induct)
  case (1 tz start end' m evs cur lastDay acc)
  show ?case
  proof (cases "cur \<le> lastDay")
    case True
    let ?new = "scanDay tz start end' m evs cur"
    have new_sorted: "sorted_wrt (\<lambda>s t. slot_end s \<le> slot_start t) ?new"
      using "1.prems"(3-5) by (rule scanDay_sorted)
    have new_within: "setHours tz cur 9 \<le> slot_start s \<and> slot_end s \<le> setHours tz cur 17"
      if "s \<in> set ?new" for s
      using "1.prems"(5) that by (rule scanDay_within)
    have a: "sorted_wrt (\<lambda>s t. slot_end s \<le> slot_start t) (acc @ ?new)"
      using "1.prems"(1,2) new_sorted new_within
      by (fastforce simp: sorted_wrt_append)
    have b: "\<forall>s \<in> set (acc @ ?new). slot_end s \<le> setHours tz (addDays cur 1) 9"
    proof
      fix s assume "s \<in> set (acc @ ?new)"
      then consider "s \<in> set acc" | "s \<in> set ?new" by auto
      then show "slot_end s \<le> setHours tz (addDays cur 1) 9"
      proof cases
        case 1
        with "1.prems"(2) have "slot_end s \<le> setHours tz cur 9" by simp
        then show ?thesis by (simp add: setHours_addDays msPerDay_def)
      next
        case 2
        from new_within [OF 2] have "slot_end s \<le> setHours tz cur 17" by simp
        moreover have "setHours tz cur 17 \<le> setHours tz cur 9 + msPerDay"
          by (simp add: setHours_def msPerDay_def)
        ultimately show ?thesis
          unfolding setHours_addDays by linarith
      qed
    qed
    from "1.IH" [OF True a b "1.prems"(3-5)] True show ?thesis
      by (subst dayLoop.simps) simp
  next
    case False
    with "1.prems"(1) show ?thesis by (subst dayLoop.simps) simp
  qed
qed

text \<open>The output is the concatenation, in day order, of what each iterated day
  contributes.\<close>

lemma dayLoop_acc:
  "dayLoop tz start end' m evs cur lastDay acc = acc @ dayLoop tz start end' m evs cur lastDay []"
proof (induction "nat (lastDay - cur + 1)" arbitrary: cur acc rule: less_induct)
  case less
  show ?case
  proof (cases "cur \<le> lastDay")
    case True
    then have smaller: "nat (lastDay - addDays cur 1 + 1) < nat (lastDay - cur + 1)"
      by (simp add: addDays_def msPerDay_def)
    let ?new = "scanDay tz start end' m evs cur"
    have "dayLoop tz start end' m evs cur lastDay acc =
        dayLoop tz start end' m evs (addDays cur 1) lastDay (acc @ ?new)"
      using True by (subst dayLoop.simps) simp
    also have "\<dots> = (acc @ ?new) @ dayLoop tz start end' m evs (addDays cur 1) lastDay []"
      by (rule less [OF smaller])
    also have "\<dots> = acc @ dayLoop tz start end' m evs (addDays cur 1) lastDay ([] @ ?new)"
      using less [OF smaller, of ?new] by simp
    also have "\<dots> = acc @ dayLoop tz start end' m evs cur lastDay []"
      using True by (subst (2) dayLoop.simps) simp
    finally show ?thesis .
  next
    case False
    then show ?thesis by (subst (1 2) dayLoop.simps) simp
  qed
qed

lemma dayLoop_step:
  "cur \<le> lastDay \<Longrightarrow>
   dayLoop tz start end' m evs cur lastDay [] =
     scanDay tz start end' m evs cur @ dayLoop tz start end' m evs (addDays cur 1) lastDay []"
  by (subst dayLoop.simps, subst dayLoop_acc) simp

lemma wellFormed_iff: "wellFormed events \<longleftrightarrow> (\<forall>e \<in> set events. ev_start e \<le> ev_end e)"
  by (simp add: wellFormed_def list_all_iff)

lemma scanRange_gap:
  assumes "s \<in> set (scanRange tz start end' m events)"
  shows "m * 60 * 1000 \<le> of_int (slot_end s - slot_start s) \<and>
         duration s = (slot_end s - slot_start s) div (1000 * 60)"
proof -
  let ?P = "\<lambda>s. m * 60 * 1000 \<le> of_int (slot_end s - slot_start s) \<and>
                duration s = (slot_end s - slot_start s) div (1000 * 60)"
  have "\<forall>s \<in> set (dayLoop tz start end' m (sort_key ev_start events)
          (startOfDay tz start) (endOfDay tz end') []). ?P s"
    by (rule dayLoop_all [where P = ?P]) (auto dest: scanDay_gap)
  with assms show ?thesis by (simp add: scanRange_def)
qed

lemma scanRange_forward:
  assumes "0 \<le> m" and "s \<in> set (scanRange tz start end' m events)"
  shows "slot_start s \<le> slot_end s"
proof -
  from scanRange_gap [OF assms(2)]
  have "m * 60 * 1000 \<le> of_int (slot_end s - slot_start s)" by simp
  moreover from assms(1) have "0 \<le> m * 60 * 1000" by simp
  ultimately have "(0::rat) \<le> of_int (slot_end s - slot_start s)" by (rule order_trans [rotated])
  then show ?thesis by simp
qed

lemma scanRange_sorted:
  assumes "0 \<le> m" and "wellFormed events"
  shows "sorted_wrt (\<lambda>s t. slot_end s \<le> slot_start t) (scanRange tz start end' m events)"
proof -
  have "sorted (map ev_start (sort_key ev_start events))"
    by (rule sorted_sort_key)
  moreover from assms(2) have "\<forall>e \<in> set (sort_key ev_start events). ev_start e \<le> ev_end e"
    by (simp add: wellFormed_iff)
  ultimately show ?thesis
    unfolding scanRange_def Let_def
    using dayLoop_sorted [OF assms(1), of "sort_key ev_start events" "[]"] by simp
qed

lemma scanRange_ascending:
  assumes "0 \<le> m" and "wellFormed events"
  shows "sorted_wrt (\<lambda>s t. slot_start s \<le> slot_start t) (scanRange tz start end' m events)"
proof (rule sorted_wrt_mono_rel [OF _ scanRange_sorted [OF assms]])
  fix s t :: slot
  assume "s \<in> set (scanRange tz start end' m events)" and "slot_end s \<le> slot_start t"
  with scanRange_forward [OF assms(1), of s tz start end' events]
  show "slot_start s \<le> slot_start t" by simp
qed

lemma gapLoop_none:
  "1 \<le> m \<Longrightarrow> \<forall>p \<in> set ps. fst p \<le> x \<and> x \<le> snd p \<Longrightarrow> gapLoop tz m ps = []"
proof (induction tz m ps rule: gapLoop.induct)
  case (1 tz m cur nxt rest)
  then have "fst nxt \<le> x" "x \<le> snd cur" by simp_all
  then have "(of_int (fst nxt - snd cur) :: rat) \<le> 0" by simp
  moreover from "1.prems"(1) have "0 < m * 60 * 1000" by simp
  ultimately have "\<not> m * 60 * 1000 \<le> of_int (fst nxt - snd cur)" by linarith
  with 1 show ?case by simp
qed simp_all

section \<open>Properties of the analytics\<close>

lemma tallyEvent_allDay: "allDay e \<Longrightarrow> tallyEvent tz st e = st"
  by (cases st) (simp add: tallyEvent_def)

lemma foldl_tally_timed:
  "foldl (tallyEvent tz) st events = foldl (tallyEvent tz) st (filter (\<lambda>e. \<not> allDay e) events)"
  by (induction events arbitrary: st) (simp_all add: tallyEvent_allDay)

lemma analyse_timed:
  "analyse tz start end' events = analyse tz start end' (filter (\<lambda>e. \<not> allDay e) events)"
  unfolding analyse_def by (subst foldl_tally_timed) simp

lemma tallyEvent_timed:
  "\<not> allDay e \<Longrightarrow> \<exists>t' cs' d'. tallyEvent tz (t, c, cs, d) e = (t', Suc c, cs', d')"
  by (simp add: tallyEvent_def Let_def)

lemma foldl_tally_count:
  "fst (snd (foldl (tallyEvent tz) (t, c, cs, d) events)) =
     c + length (filter (\<lambda>e. \<not> allDay e) events)"
proof (induction events arbitrary: t c cs d)
  case Nil
  then show ?case by simp
next
  case (Cons e events)
  show ?case
  proof (cases "allDay e")
    case True
    then show ?thesis by (simp add: tallyEvent_allDay Cons.IH)
  next
    case False
    from tallyEvent_timed [OF False] obtain t' cs' d'
      where "tallyEvent tz (t, c, cs, d) e = (t', Suc c, cs', d')" by blast
    with False show ?thesis by (simp add: Cons.IH)
  qed
qed

lemma meetingCount_analyse:
  "meetingCount (analyse tz start end' events) = length (filter (\<lambda>e. \<not> allDay e) events)"
proof -
  obtain t c cs d where f: "foldl (tallyEvent tz) (0, 0, [], []) events = (t, c, cs, d)"
    by (metis prod_cases4)
  with foldl_tally_count [of tz 0 0 "[]" "[]" events] have "c = length (filter (\<lambda>e. \<not> allDay e) events)"
    by simp
  with f show ?thesis by (simp add: analyse_def Let_def)
qed

lemma averageMeetingLength_analyse:
  "averageMeetingLength (analyse tz start end' events) =
     (if meetingCount (analyse tz start end' events) > 0
      then Math_round (totalMeetingMinutes (analyse tz start end' events) /
             of_nat (meetingCount (analyse tz start end' events)))
      else 0)"
  by (simp add: analyse_def Let_def split: prod.splits)

lemma averageDaily_analyse:
  "averageDailyMeetingMinutes (analyse tz start end' events) =
     js_lift Math_round (js_div (totalMeetingMinutes (analyse tz start end' events))
        (of_int (dayCount start end')))"
  by (simp add: analyse_def Let_def split: prod.splits)


lemma Math_round_0: "Math_round 0 = 0"
  by (simp add: Math_round_def floor_eq_iff)

lemma hours1_0: "hours1 0 = 0"
  by (simp add: hours1_def Math_round_0)

lemma analyse_Nil:
  "0 < dayCount start end' \<Longrightarrow> analyse tz start end' [] =
     \<lparr> totalMeetingMinutes = 0, totalMeetingHours = 0, meetingCount = 0,
       averageMeetingLength = 0, averageDailyMeetingMinutes = Finite 0,
       averageDailyMeetingHours = Finite 0, categoryCounts = [], busiestDay = '''',
       busiestDayMinutes = 0, busiestDayHours = 0, dailyMeetingMinutes = [] \<rparr>"
  by (simp add: analyse_def js_div_def js_lift_def Math_round_0 hours1_0)

section \<open>The claims\<close>




text \<open>
  Claim C6, as amended. Whenever the fetch succeeds, no event of the snapshot ends before it
  starts, and \<open>minDurationMinutes \<ge> 0\<close>, the list \<open>freeSlots\<close> that \<open>findFreeTimeSlots\<close> returns
  is in ascending order of start, and every slot ends no later than any later slot starts.
  The claim leaves \<open>minDurationMinutes\<close> unrestricted; with a negative value the test
  \<open>gap \<ge> minDurationMinutes * 60 * 1000\<close> lets negative gaps through, and the output is no
  longer ordered (see the counterexample).
\<close>

theorem findFreeTimeSlots_ascending:
  assumes "getEvents userId startDate endDate = Inr events"
    and "wellFormed events"
    and "0 \<le> m"
  shows "\<exists>result. findFreeTimeSlots tz getEvents userId startDate endDate m = Inr result \<and>
           sorted (map slot_start (freeSlots result)) \<and>
           sorted_wrt (\<lambda>s t. slot_end s \<le> slot_start t) (freeSlots result)"
proof -
  let ?slots = "scanRange tz startDate endDate m events"
  have apart: "sorted_wrt (\<lambda>s t. slot_end s \<le> slot_start t) ?slots"
    using assms(3,2) by (rule scanRange_sorted)
  have le: "slot_start s \<le> slot_end s" if "s \<in> set ?slots" for s
    using assms(3) that by (rule scanRange_forward)
  have "sorted_wrt (\<lambda>s t. slot_start s \<le> slot_start t) ?slots"
  proof (rule sorted_wrt_mono_rel [OF _ apart])
    fix s t :: slot
    assume "s \<in> set ?slots" and "slot_end s \<le> slot_start t"
    with le [of s] show "slot_start s \<le> slot_start t" by simp
  qed
  then have "sorted (map slot_start ?slots)"
    by (simp add: sorted_map)
  with apart assms(1) show ?thesis
    by (simp add: findFreeTimeSlots_def Let_def)
qed

theorem findFreeTimeSlots_ascending_witness:
  "snapshot twoMeetings ''u'' (onDay 0 0 0) (onDay 1 23 0) = Inr twoMeetings \<and>
   wellFormed twoMeetings \<and> (0::rat) \<le> 30 \<and>
   (\<exists>result. findFreeTimeSlots 0 (snapshot twoMeetings) ''u'' (onDay 0 0 0) (onDay 1 23 0) 30
                = Inr result \<and>
      map span (freeSlots result) =
        [(onDay 0 10 0, onDay 0 11 30), (onDay 0 12 30, onDay 0 17 0),
         (onDay 1 9 0, onDay 1 17 0)] \<and>
      sorted (map slot_start (freeSlots result)) \<and>
      sorted_wrt (\<lambda>s t. slot_end s \<le> slot_start t) (freeSlots result))"
proof -
  have fetched: "snapshot twoMeetings ''u'' (onDay 0 0 0) (onDay 1 23 0) = Inr twoMeetings"
    by (simp add: snapshot_def)
  have wf: "wellFormed twoMeetings"
    by (simp add: wellFormed_def twoMeetings_def meeting_def onDay_def)
  have run: "map_sum id (\<lambda>r. map span (freeSlots r))
      (findFreeTimeSlots 0 (snapshot twoMeetings) ''u'' (onDay 0 0 0) (onDay 1 23 0) 30) =
      Inr [(onDay 0 10 0, onDay 0 11 30), (onDay 0 12 30, onDay 0 17 0),
           (onDay 1 9 0, onDay 1 17 0)]"
    by code_simp
  from findFreeTimeSlots_ascending [where getEvents = "snapshot twoMeetings"
      and userId = "''u''" and startDate = "onDay 0 0 0" and endDate = "onDay 1 23 0"
      and tz = 0 and m = 30, OF fetched wf]
  obtain result where
    r: "findFreeTimeSlots 0 (snapshot twoMeetings) ''u'' (onDay 0 0 0) (onDay 1 23 0) 30 = Inr result"
    and asc: "sorted (map slot_start (freeSlots result))"
    and apart: "sorted_wrt (\<lambda>s t. slot_end s \<le> slot_start t) (freeSlots result)"
    by auto
  from run r have spans: "map span (freeSlots result) =
        [(onDay 0 10 0, onDay 0 11 30), (onDay 0 12 30, onDay 0 17 0),
         (onDay 1 9 0, onDay 1 17 0)]" by simp
  have "(0::rat) \<le> 30" by simp
  with fetched wf r spans asc apart show ?thesis
    by - (intro conjI exI [of _ result]; assumption)
qed

text \<open>
  With \<open>minDurationMinutes = -600\<close> and a review 10:00-11:00 inside a workshop 09:00-17:00
  (both well-formed), the slots come out as 09:00-09:00, 17:00-10:00, 11:00-17:00: the
  second starts after the third.
\<close>

theorem findFreeTimeSlots_ascending_counterexample:
  "wellFormed nested \<and>
   map_sum id (\<lambda>r. map span (freeSlots r))
     (findFreeTimeSlots 0 (snapshot nested) ''u'' (onDay 0 0 0) (onDay 0 23 0) (- 600)) =
     Inr [(onDay 0 9 0, onDay 0 9 0), (onDay 0 17 0, onDay 0 10 0), (onDay 0 11 0, onDay 0 17 0)] \<and>
   \<not> sorted [onDay 0 9 0, onDay 0 17 0, onDay 0 11 0]"
proof (intro conjI)
  show "wellFormed nested"
    by (simp add: wellFormed_def nested_def meeting_def onDay_def)
  show "map_sum id (\<lambda>r. map span (freeSlots r))
     (findFreeTimeSlots 0 (snapshot nested) ''u'' (onDay 0 0 0) (onDay 0 23 0) (- 600)) =
     Inr [(onDay 0 9 0, onDay 0 9 0), (onDay 0 17 0, onDay 0 10 0), (onDay 0 11 0, onDay 0 17 0)]"
    by code_simp
  show "\<not> sorted [onDay 0 9 0, onDay 0 17 0, onDay 0 11 0]"
    by (simp add: onDay_def)
qed

text \<open>
  Claim C5, as amended. What an iterated day contributes to the output is \<open>scanDay\<close> of that
  day (lemma \<open>dayLoop_step\<close>). An iteration of the day loop pushes no slot, whatever
  \<open>minDurationMinutes\<close> and the events are, when the day's window 09:00-17:00 lies strictly
  apart from the query range (\<open>dayEnd < start\<close> or \<open>end < dayStart\<close>: the test of the
  \<open>continue\<close> branch). When the window merely does not overlap the range under half-open
  semantics (so it may touch it), the iteration pushes no slot provided
  \<open>minDurationMinutes \<ge> 1\<close>, the range has \<open>start \<le> end\<close> and no event ends before it starts.
  With \<open>minDurationMinutes = 0\<close> a window that touches the range does contribute a zero-length
  slot (see the counterexample).
\<close>

theorem scanDay_window_apart:
  "(setHours tz day 17 < start \<or> end' < setHours tz day 9 \<longrightarrow>
      scanDay tz start end' m events day = []) \<and>
   (\<not> areIntervalsOverlapping (setHours tz day 9, setHours tz day 17) (start, end') \<and>
    start \<le> end' \<and> wellFormed events \<and> 1 \<le> m \<longrightarrow>
      scanDay tz start end' m events day = [])"
proof (intro conjI impI)
  assume "setHours tz day 17 < start \<or> end' < setHours tz day 9"
  then show "scanDay tz start end' m events day = []"
    by (auto simp: scanDay_def Let_def)
next
  define ds where "ds = setHours tz day 9"
  define de where "de = setHours tz day 17"
  assume "\<not> areIntervalsOverlapping (setHours tz day 9, setHours tz day 17) (start, end') \<and>
          start \<le> end' \<and> wellFormed events \<and> 1 \<le> m"
  then have no: "\<not> areIntervalsOverlapping (ds, de) (start, end')" and range: "start \<le> end'"
    and wf: "wellFormed events" and m: "1 \<le> m"
    by (simp_all add: ds_def de_def)
  have dsde: "ds < de" by (simp add: ds_def de_def setHours_def)
  from no range dsde have touch: "end' \<le> ds \<or> de \<le> start"
    by (auto simp: areIntervalsOverlapping_def Let_def)
  define S where "S = (if ds < start then start else ds)"
  define E where "E = (if de > end' then end' else de)"
  show "scanDay tz start end' m events day = []"
  proof (cases "de < start \<or> ds > end'")
    case True
    then show ?thesis by (auto simp: scanDay_def Let_def ds_def de_def)
  next
    case False
    with touch range dsde have SE: "S = E" by (auto simp: S_def E_def)
    have "gapLoop tz m ([(S, S)] @
            map interval (filter (\<lambda>e. areIntervalsOverlapping (S, E) (interval e)) events) @
            [(E, E)]) = []"
    proof (rule gapLoop_none [OF m, where x = S])
      show "\<forall>p \<in> set ([(S, S)] @
              map interval (filter (\<lambda>e. areIntervalsOverlapping (S, E) (interval e)) events) @
              [(E, E)]). fst p \<le> S \<and> S \<le> snd p"
        using wf SE
        by (auto simp: wellFormed_iff interval_def areIntervalsOverlapping_def Let_def)
    qed
    with False show ?thesis
      unfolding scanDay_def Let_def S_def E_def ds_def de_def by simp
  qed
qed


theorem scanDay_window_apart_witness:
  "setHours 0 (onDay 0 0 0) 17 < onDay 0 18 0 \<and>
   scanDay 0 (onDay 0 18 0) (onDay 1 12 0) 0 twoMeetings (onDay 0 0 0) = [] \<and>
   \<not> areIntervalsOverlapping (setHours 0 (onDay 0 0 0) 9, setHours 0 (onDay 0 0 0) 17)
       (onDay 0 17 0, onDay 0 23 0) \<and>
   onDay 0 17 0 \<le> onDay 0 23 0 \<and> wellFormed twoMeetings \<and> (1::rat) \<le> 30 \<and>
   scanDay 0 (onDay 0 17 0) (onDay 0 23 0) 30 twoMeetings (onDay 0 0 0) = []"
proof -
  have a: "setHours 0 (onDay 0 0 0) 17 < onDay 0 18 0"
    by (simp add: setHours_def startOfDay_def msPerDay_def onDay_def)
  have b: "\<not> areIntervalsOverlapping (setHours 0 (onDay 0 0 0) 9, setHours 0 (onDay 0 0 0) 17)
       (onDay 0 17 0, onDay 0 23 0)"
    by (simp add: areIntervalsOverlapping_def setHours_def startOfDay_def msPerDay_def onDay_def)
  have c: "onDay 0 17 0 \<le> onDay 0 23 0" by (simp add: onDay_def)
  have d: "wellFormed twoMeetings"
    by (simp add: wellFormed_def twoMeetings_def meeting_def onDay_def)
  have e: "(1::rat) \<le> 30" by simp
  from a scanDay_window_apart [where tz = 0 and day = "onDay 0 0 0" and start = "onDay 0 18 0"
      and end' = "onDay 1 12 0" and m = 0 and events = twoMeetings]
  have f: "scanDay 0 (onDay 0 18 0) (onDay 1 12 0) 0 twoMeetings (onDay 0 0 0) = []"
    by blast
  from b c d e scanDay_window_apart [where tz = 0 and day = "onDay 0 0 0"
      and start = "onDay 0 17 0" and end' = "onDay 0 23 0" and m = 30 and events = twoMeetings]
  have g: "scanDay 0 (onDay 0 17 0) (onDay 0 23 0) 30 twoMeetings (onDay 0 0 0) = []"
    by blast
  from a b c d e f g show ?thesis
    by - (intro conjI; assumption)
qed

text \<open>
  The range Monday 17:00-23:00 touches Monday's window 09:00-17:00 without overlapping it.
  Monday is iterated, it is not skipped (\<open>dayEnd < start\<close> is false), and with
  \<open>minDurationMinutes = 0\<close> and no events it contributes the zero-length slot 17:00-17:00.
\<close>

theorem scanDay_window_apart_counterexample:
  "\<not> areIntervalsOverlapping (setHours 0 (onDay 0 0 0) 9, setHours 0 (onDay 0 0 0) 17)
       (onDay 0 17 0, onDay 0 23 0) \<and>
   startOfDay 0 (onDay 0 17 0) = onDay 0 0 0 \<and>
   map span (scanDay 0 (onDay 0 17 0) (onDay 0 23 0) 0 [] (onDay 0 0 0)) =
     [(onDay 0 17 0, onDay 0 17 0)] \<and>
   map_sum id (\<lambda>r. map span (freeSlots r))
     (findFreeTimeSlots 0 (snapshot []) ''u'' (onDay 0 17 0) (onDay 0 23 0) 0) =
     Inr [(onDay 0 17 0, onDay 0 17 0)]"
proof (intro conjI)
  show "\<not> areIntervalsOverlapping (setHours 0 (onDay 0 0 0) 9, setHours 0 (onDay 0 0 0) 17)
       (onDay 0 17 0, onDay 0 23 0)"
    by (simp add: areIntervalsOverlapping_def setHours_def startOfDay_def msPerDay_def onDay_def)
  show "startOfDay 0 (onDay 0 17 0) = onDay 0 0 0"
    by (simp add: startOfDay_def msPerDay_def onDay_def)
  show "map span (scanDay 0 (onDay 0 17 0) (onDay 0 23 0) 0 [] (onDay 0 0 0)) =
     [(onDay 0 17 0, onDay 0 17 0)]"
    by code_simp
  show "map_sum id (\<lambda>r. map span (freeSlots r))
     (findFreeTimeSlots 0 (snapshot []) ''u'' (onDay 0 17 0) (onDay 0 23 0) 0) =
     Inr [(onDay 0 17 0, onDay 0 17 0)]"
    by code_simp
qed

text \<open>
  Claim C1 at a failing input. A workshop 09:00-17:00 fills Monday's window and a review
  10:00-11:00 lies inside it; both are well-formed. With \<open>minDurationMinutes = 30\<close> the scan
  over Monday returns the slot 11:00-17:00, which overlaps the workshop: the gap between the
  end of the review and the closing marker passes the duration test although an earlier event
  is still running. (The variable \<open>timePointer\<close> that the function declares is never used.)
\<close>

theorem findFreeTimeSlots_slot_inside_event:
  "wellFormed nested \<and>
   map_sum id (\<lambda>r. map span (freeSlots r))
     (findFreeTimeSlots 0 (snapshot nested) ''u'' (onDay 0 0 0) (onDay 0 23 0) 30) =
     Inr [(onDay 0 11 0, onDay 0 17 0)] \<and>
   interval (hd nested) = (onDay 0 9 0, onDay 0 17 0) \<and>
   areIntervalsOverlapping (onDay 0 11 0, onDay 0 17 0) (interval (hd nested))"
proof (intro conjI)
  show "wellFormed nested"
    by (simp add: wellFormed_def nested_def meeting_def onDay_def)
  show "map_sum id (\<lambda>r. map span (freeSlots r))
     (findFreeTimeSlots 0 (snapshot nested) ''u'' (onDay 0 0 0) (onDay 0 23 0) 30) =
     Inr [(onDay 0 11 0, onDay 0 17 0)]"
    by code_simp
  show "interval (hd nested) = (onDay 0 9 0, onDay 0 17 0)"
    by (simp add: nested_def meeting_def interval_def)
  show "areIntervalsOverlapping (onDay 0 11 0, onDay 0 17 0) (interval (hd nested))"
    by (simp add: nested_def meeting_def interval_def areIntervalsOverlapping_def onDay_def)
qed

text \<open>
  Claim C8. Let a snapshot be given as the events before and after some position, and let
  \<open>e\<close> be an all-day event. \<open>getCalendarAnalytics\<close> on the snapshot with \<open>e\<close> added at that
  position returns the same result as on the snapshot without it: the same
  \<open>totalMeetingMinutes\<close>, \<open>meetingCount\<close>, \<open>categoryCounts\<close>, \<open>dailyMeetingMinutes\<close>, busiest-day
  fields, and every other field of the report.
\<close>

theorem getCalendarAnalytics_ignores_allDay:
  assumes "allDay e"
    and "getEvents userId startDate endDate = Inr (before @ after)"
    and "getEvents' userId startDate endDate = Inr (before @ e # after)"
  shows "getCalendarAnalytics tz getEvents' userId startDate endDate =
         getCalendarAnalytics tz getEvents userId startDate endDate"
proof -
  from assms(1) have "filter (\<lambda>e. \<not> allDay e) (before @ e # after) =
      filter (\<lambda>e. \<not> allDay e) (before @ after)" by simp
  then have "analyse tz startDate endDate (before @ e # after) =
      analyse tz startDate endDate (before @ after)"
    using analyse_timed [of tz startDate endDate "before @ e # after"]
      analyse_timed [of tz startDate endDate "before @ after"] by simp
  with assms(2,3) show ?thesis by (simp add: getCalendarAnalytics_def)
qed

theorem getCalendarAnalytics_ignores_allDay_witness:
  "allDay (holiday ''offsite'' (onDay 0 0 0) (onDay 1 0 0)) \<and>
   snapshot (take 1 sixtyAndThirty @ drop 1 sixtyAndThirty) ''u'' (onDay 0 0 0) (onDay 1 0 0) =
     Inr (take 1 sixtyAndThirty @ drop 1 sixtyAndThirty) \<and>
   snapshot (take 1 sixtyAndThirty @ holiday ''offsite'' (onDay 0 0 0) (onDay 1 0 0) #
       drop 1 sixtyAndThirty) ''u'' (onDay 0 0 0) (onDay 1 0 0) =
     Inr (take 1 sixtyAndThirty @ holiday ''offsite'' (onDay 0 0 0) (onDay 1 0 0) #
       drop 1 sixtyAndThirty) \<and>
   getCalendarAnalytics 0
     (snapshot (take 1 sixtyAndThirty @ holiday ''offsite'' (onDay 0 0 0) (onDay 1 0 0) #
        drop 1 sixtyAndThirty)) ''u'' (onDay 0 0 0) (onDay 1 0 0) =
   getCalendarAnalytics 0 (snapshot (take 1 sixtyAndThirty @ drop 1 sixtyAndThirty))
     ''u'' (onDay 0 0 0) (onDay 1 0 0)"
proof -
  have a: "allDay (holiday ''offsite'' (onDay 0 0 0) (onDay 1 0 0))"
    by (simp add: holiday_def)
  have b: "snapshot (take 1 sixtyAndThirty @ drop 1 sixtyAndThirty) ''u'' (onDay 0 0 0) (onDay 1 0 0) =
     Inr (take 1 sixtyAndThirty @ drop 1 sixtyAndThirty)"
    by (simp add: snapshot_def)
  have c: "snapshot (take 1 sixtyAndThirty @ holiday ''offsite'' (onDay 0 0 0) (onDay 1 0 0) #
       drop 1 sixtyAndThirty) ''u'' (onDay 0 0 0) (onDay 1 0 0) =
     Inr (take 1 sixtyAndThirty @ holiday ''offsite'' (onDay 0 0 0) (onDay 1 0 0) #
       drop 1 sixtyAndThirty)"
    by (simp add: snapshot_def)
  from a b c getCalendarAnalytics_ignores_allDay [where tz = 0
      and e = "holiday ''offsite'' (onDay 0 0 0) (onDay 1 0 0)"
      and before = "take 1 sixtyAndThirty" and after = "drop 1 sixtyAndThirty"
      and userId = "''u''" and startDate = "onDay 0 0 0" and endDate = "onDay 1 0 0"
      and getEvents = "snapshot (take 1 sixtyAndThirty @ drop 1 sixtyAndThirty)"
      and getEvents' = "snapshot (take 1 sixtyAndThirty @
        holiday ''offsite'' (onDay 0 0 0) (onDay 1 0 0) # drop 1 sixtyAndThirty)", OF a b c]
  show ?thesis
    by - (intro conjI; assumption)
qed

text \<open>
  Claim C10. When every event of the snapshot is all-day (the empty snapshot included) and
  the range's \<open>dayCount\<close> is positive, \<open>getCalendarAnalytics\<close> returns the report with
  \<open>totalMeetingMinutes = 0\<close>, \<open>meetingCount = 0\<close>, \<open>averageMeetingLength = 0\<close>, empty
  \<open>categoryCounts\<close> and \<open>dailyMeetingMinutes\<close>, \<open>busiestDay\<close> the empty string and
  \<open>busiestDayMinutes = 0\<close>; the remaining fields are 0 as well.
\<close>

theorem getCalendarAnalytics_no_meetings:
  assumes "getEvents userId startDate endDate = Inr events"
    and "\<forall>e \<in> set events. allDay e"
    and "0 < dayCount startDate endDate"
  shows "getCalendarAnalytics tz getEvents userId startDate endDate =
     Inr \<lparr> totalMeetingMinutes = 0, totalMeetingHours = 0, meetingCount = 0,
           averageMeetingLength = 0, averageDailyMeetingMinutes = Finite 0,
           averageDailyMeetingHours = Finite 0, categoryCounts = [], busiestDay = '''',
           busiestDayMinutes = 0, busiestDayHours = 0, dailyMeetingMinutes = [] \<rparr>"
proof -
  from assms(2) have "filter (\<lambda>e. \<not> allDay e) events = []" by simp
  then have "analyse tz startDate endDate events = analyse tz startDate endDate []"
    using analyse_timed [of tz startDate endDate events] by simp
  with assms(1,3) show ?thesis
    by (simp add: getCalendarAnalytics_def analyse_Nil)
qed

theorem getCalendarAnalytics_no_meetings_witness:
  "snapshot [holiday ''offsite'' (onDay 0 0 0) (onDay 1 0 0)] ''u'' (onDay 0 0 0) (onDay 1 0 0) =
     Inr [holiday ''offsite'' (onDay 0 0 0) (onDay 1 0 0)] \<and>
   list_all allDay [holiday ''offsite'' (onDay 0 0 0) (onDay 1 0 0)] \<and>
   0 < dayCount (onDay 0 0 0) (onDay 1 0 0) \<and>
   getCalendarAnalytics 0 (snapshot [holiday ''offsite'' (onDay 0 0 0) (onDay 1 0 0)]) ''u''
       (onDay 0 0 0) (onDay 1 0 0) =
     Inr \<lparr> totalMeetingMinutes = 0, totalMeetingHours = 0, meetingCount = 0,
           averageMeetingLength = 0, averageDailyMeetingMinutes = Finite 0,
           averageDailyMeetingHours = Finite 0, categoryCounts = [], busiestDay = '''',
           busiestDayMinutes = 0, busiestDayHours = 0, dailyMeetingMinutes = [] \<rparr>"
proof -
  have a: "snapshot [holiday ''offsite'' (onDay 0 0 0) (onDay 1 0 0)] ''u'' (onDay 0 0 0) (onDay 1 0 0) =
     Inr [holiday ''offsite'' (onDay 0 0 0) (onDay 1 0 0)]"
    by (simp add: snapshot_def)
  have b: "list_all allDay [holiday ''offsite'' (onDay 0 0 0) (onDay 1 0 0)]"
    by (simp add: holiday_def)
  then have b': "\<forall>e \<in> set [holiday ''offsite'' (onDay 0 0 0) (onDay 1 0 0)]. allDay e"
    by simp
  have c: "0 < dayCount (onDay 0 0 0) (onDay 1 0 0)"
    by (simp add: dayCount_def onDay_def)
  from a b c getCalendarAnalytics_no_meetings [where tz = 0
      and getEvents = "snapshot [holiday ''offsite'' (onDay 0 0 0) (onDay 1 0 0)]"
      and userId = "''u''" and startDate = "onDay 0 0 0" and endDate = "onDay 1 0 0"
      and events = "[holiday ''offsite'' (onDay 0 0 0) (onDay 1 0 0)]", OF a b' c]
  show ?thesis
    by - (intro conjI; assumption)
qed

text \<open>
  Claim C4, as amended. Whenever the fetch succeeds, \<open>meetingCount\<close> is the number of events
  that are not all-day, and \<open>averageMeetingLength\<close> is \<open>Math.round(totalMeetingMinutes /
  meetingCount)\<close>, the quotient rounded to the nearest integer with ties going up, when
  \<open>meetingCount > 0\<close>, and 0 when no meeting was counted. The claim says that no rounding is
  applied; the code applies \<open>Math.round\<close>. Two events of 60 and 30 minutes yield 45 (the
  witness).
\<close>

theorem averageMeetingLength_rounded:
  assumes "getEvents userId startDate endDate = Inr events"
  shows "\<exists>r. getCalendarAnalytics tz getEvents userId startDate endDate = Inr r \<and>
           meetingCount r = length (filter (\<lambda>e. \<not> allDay e) events) \<and>
           averageMeetingLength r =
             (if meetingCount r > 0
              then Math_round (totalMeetingMinutes r / of_nat (meetingCount r)) else 0)"
  using assms
  by (simp add: getCalendarAnalytics_def meetingCount_analyse averageMeetingLength_analyse)

theorem averageMeetingLength_rounded_witness:
  "snapshot sixtyAndThirty ''u'' (onDay 0 0 0) (onDay 1 0 0) = Inr sixtyAndThirty \<and>
   (\<exists>r. getCalendarAnalytics 0 (snapshot sixtyAndThirty) ''u'' (onDay 0 0 0) (onDay 1 0 0) = Inr r \<and>
      totalMeetingMinutes r = 90 \<and> categoryCounts r = [(''work'', 1), (''Uncategorized'', 1)] \<and>
      meetingCount r = 2 \<and> averageMeetingLength r = 45 \<and>
      meetingCount r = length (filter (\<lambda>e. \<not> allDay e) sixtyAndThirty) \<and>
      averageMeetingLength r =
        (if meetingCount r > 0
         then Math_round (totalMeetingMinutes r / of_nat (meetingCount r)) else 0))"
proof -
  have fetched: "snapshot sixtyAndThirty ''u'' (onDay 0 0 0) (onDay 1 0 0) = Inr sixtyAndThirty"
    by (simp add: snapshot_def)
  have run: "map_sum id
      (\<lambda>r. (totalMeetingMinutes r, categoryCounts r, meetingCount r, averageMeetingLength r))
      (getCalendarAnalytics 0 (snapshot sixtyAndThirty) ''u'' (onDay 0 0 0) (onDay 1 0 0)) =
      Inr (90, [(''work'', 1), (''Uncategorized'', 1)], 2, 45)"
    by code_simp
  from averageMeetingLength_rounded [where getEvents = "snapshot sixtyAndThirty"
      and userId = "''u''" and startDate = "onDay 0 0 0" and endDate = "onDay 1 0 0"
      and tz = 0, OF fetched]
  obtain r where
    r: "getCalendarAnalytics 0 (snapshot sixtyAndThirty) ''u'' (onDay 0 0 0) (onDay 1 0 0) = Inr r"
    and cnt: "meetingCount r = length (filter (\<lambda>e. \<not> allDay e) sixtyAndThirty)"
    and avg: "averageMeetingLength r =
        (if meetingCount r > 0
         then Math_round (totalMeetingMinutes r / of_nat (meetingCount r)) else 0)"
    by blast
  from run r have "totalMeetingMinutes r = 90"
    and "categoryCounts r = [(''work'', 1), (''Uncategorized'', 1)]"
    and "meetingCount r = 2" and "averageMeetingLength r = 45" by simp_all
  with fetched r cnt avg show ?thesis
    by - (intro conjI exI [of _ r]; assumption)
qed

text \<open>
  Two events of 60 and 31 minutes: \<open>totalMeetingMinutes = 91\<close>, \<open>meetingCount = 2\<close>, and
  \<open>averageMeetingLength\<close> is 46, not 91 / 2.
\<close>

theorem averageMeetingLength_rounded_counterexample:
  "map_sum id (\<lambda>r. (totalMeetingMinutes r, meetingCount r, averageMeetingLength r))
     (getCalendarAnalytics 0 (snapshot sixtyAndThirtyOne) ''u'' (onDay 0 0 0) (onDay 1 0 0)) =
     Inr (91, 2, 46) \<and>
   (46::rat) \<noteq> 91 / 2"
proof (intro conjI)
  show "map_sum id (\<lambda>r. (totalMeetingMinutes r, meetingCount r, averageMeetingLength r))
     (getCalendarAnalytics 0 (snapshot sixtyAndThirtyOne) ''u'' (onDay 0 0 0) (onDay 1 0 0)) =
     Inr (91, 2, 46)"
    by code_simp
  show "(46::rat) \<noteq> 91 / 2" by simp
qed

text \<open>
  Claim C2, as amended. For a range whose \<open>dayCount\<close> is 0 or negative,
  \<open>getCalendarAnalytics\<close> does not reject the request: whenever the fetch succeeds it returns a
  report, the one the same computation gives for any other range, with \<open>meetingCount\<close> the
  number of events that are not all-day. The function has no check of the range and no
  failure result of its own. What the field \<open>averageDailyMeetingMinutes\<close> holds when the
  divisor \<open>dayCount\<close> is 0 is not part of this statement.
\<close>

theorem getCalendarAnalytics_degenerate_range:
  assumes "getEvents userId startDate endDate = Inr events"
    and "dayCount startDate endDate \<le> 0"
  shows "\<exists>r. getCalendarAnalytics tz getEvents userId startDate endDate = Inr r \<and>
           r = analyse tz startDate endDate events \<and>
           meetingCount r = length (filter (\<lambda>e. \<not> allDay e) events)"
  using assms(1)
  by (simp add: getCalendarAnalytics_def meetingCount_analyse)

theorem getCalendarAnalytics_degenerate_range_witness:
  "snapshot sixtyAndThirty ''u'' (onDay 0 0 0) (onDay 0 0 0) = Inr sixtyAndThirty \<and>
   dayCount (onDay 0 0 0) (onDay 0 0 0) \<le> 0 \<and>
   (\<exists>r. getCalendarAnalytics 0 (snapshot sixtyAndThirty) ''u'' (onDay 0 0 0) (onDay 0 0 0) = Inr r \<and>
      r = analyse 0 (onDay 0 0 0) (onDay 0 0 0) sixtyAndThirty \<and>
      totalMeetingMinutes r = 90 \<and> meetingCount r = 2)"
proof -
  have fetched: "snapshot sixtyAndThirty ''u'' (onDay 0 0 0) (onDay 0 0 0) = Inr sixtyAndThirty"
    by (simp add: snapshot_def)
  have zero: "dayCount (onDay 0 0 0) (onDay 0 0 0) = 0"
    by (simp add: dayCount_def)
  then have le: "dayCount (onDay 0 0 0) (onDay 0 0 0) \<le> 0" by simp
  have run: "map_sum id (\<lambda>r. (totalMeetingMinutes r, meetingCount r))
      (getCalendarAnalytics 0 (snapshot sixtyAndThirty) ''u'' (onDay 0 0 0) (onDay 0 0 0)) =
      Inr (90, 2)"
    by code_simp
  from getCalendarAnalytics_degenerate_range [where getEvents = "snapshot sixtyAndThirty"
      and userId = "''u''" and startDate = "onDay 0 0 0" and endDate = "onDay 0 0 0"
      and tz = 0, OF fetched le]
  obtain r where
    r: "getCalendarAnalytics 0 (snapshot sixtyAndThirty) ''u'' (onDay 0 0 0) (onDay 0 0 0) = Inr r"
    and same: "r = analyse 0 (onDay 0 0 0) (onDay 0 0 0) sixtyAndThirty"
    by blast
  from run r have tot: "totalMeetingMinutes r = 90" and cnt: "meetingCount r = 2" by simp_all
  with fetched le r same show ?thesis
    by - (intro conjI exI [of _ r]; assumption)
qed

text \<open>
  A range with \<open>start = end\<close> has \<open>dayCount = 0\<close>. With no events the report comes back with
  \<open>averageDailyMeetingMinutes = NaN\<close>; with two timed meetings it comes back with an infinite
  \<open>averageDailyMeetingMinutes\<close>. Neither request is rejected.
\<close>

theorem getCalendarAnalytics_degenerate_range_counterexample:
  "dayCount (onDay 0 0 0) (onDay 0 0 0) = 0 \<and>
   map_sum id averageDailyMeetingMinutes
     (getCalendarAnalytics 0 (snapshot []) ''u'' (onDay 0 0 0) (onDay 0 0 0)) = Inr NaN \<and>
   map_sum id averageDailyMeetingMinutes
     (getCalendarAnalytics 0 (snapshot twoMeetings) ''u'' (onDay 0 0 0) (onDay 0 0 0)) =
     Inr Infinite"
proof (intro conjI)
  show "dayCount (onDay 0 0 0) (onDay 0 0 0) = 0"
    by (simp add: dayCount_def)
  show "map_sum id averageDailyMeetingMinutes
     (getCalendarAnalytics 0 (snapshot []) ''u'' (onDay 0 0 0) (onDay 0 0 0)) = Inr NaN"
    by code_simp
  show "map_sum id averageDailyMeetingMinutes
     (getCalendarAnalytics 0 (snapshot twoMeetings) ''u'' (onDay 0 0 0) (onDay 0 0 0)) =
     Inr Infinite"
    by code_simp
qed

text \<open>
  Claim C3, as amended. When the event fetch fails, \<open>findEvents\<close> catches the error and
  returns the empty list; when \<open>findAvailableTimeSlots\<close> fails, \<open>findOptimalMeetingTime\<close>
  catches the error and returns the empty list. Neither function ever returns a failure to
  its caller: the error is swallowed (logged only), and the caller cannot tell a failed fetch
  from an empty result.
\<close>

theorem failures_swallowed:
  "(getEvents userId now (addDays now 30) = Inl err \<longrightarrow>
      findEvents getEvents userId query now = Inr []) \<and>
   (findAvailableTimeSlots userId startDate durationMinutes = Inl err \<longrightarrow>
      findOptimalMeetingTime findAvailableTimeSlots userId participantIds durationMinutes
        startDate endDate = Inr []) \<and>
   findEvents getEvents userId query now \<noteq> Inl err' \<and>
   findOptimalMeetingTime findAvailableTimeSlots userId participantIds durationMinutes
     startDate endDate \<noteq> Inl err'"
  by (auto simp: findEvents_def findOptimalMeetingTime_def Let_def split: sum.splits)

theorem failures_swallowed_witness:
  "failing ''u'' (onDay 0 8 0) (addDays (onDay 0 8 0) 30) = Inl (Rejected ''fetch failed'') \<and>
   findEvents failing ''u'' ''standup'' (onDay 0 8 0) = Inr [] \<and>
   unavailable ''u'' ''2024-01-15T08:00:00.000Z'' 45 = Inl (Rejected ''timeout'') \<and>
   findOptimalMeetingTime unavailable ''u'' [''v'', ''w''] 45
     ''2024-01-15T08:00:00.000Z'' ''2024-01-19T17:00:00.000Z'' = Inr []"
proof -
  have a: "failing ''u'' (onDay 0 8 0) (addDays (onDay 0 8 0) 30) = Inl (Rejected ''fetch failed'')"
    by (simp add: failing_def)
  have b: "unavailable ''u'' ''2024-01-15T08:00:00.000Z'' 45 = Inl (Rejected ''timeout'')"
    by (simp add: unavailable_def)
  from a failures_swallowed [where getEvents = failing and userId = "''u''"
      and now = "onDay 0 8 0" and err = "Rejected ''fetch failed''" and query = "''standup''"]
  have c: "findEvents failing ''u'' ''standup'' (onDay 0 8 0) = Inr []"
    by blast
  from b failures_swallowed [where findAvailableTimeSlots = unavailable and userId = "''u''"
      and startDate = "''2024-01-15T08:00:00.000Z''" and durationMinutes = 45
      and err = "Rejected ''timeout''" and participantIds = "[''v'', ''w'']"
      and endDate = "''2024-01-19T17:00:00.000Z''"]
  have d: "findOptimalMeetingTime unavailable ''u'' [''v'', ''w''] 45
     ''2024-01-15T08:00:00.000Z'' ''2024-01-19T17:00:00.000Z'' = Inr []"
    by blast
  from a c b d show ?thesis
    by - (intro conjI; assumption)
qed

text \<open>
  A repository whose fetch is rejected, and a \<open>findAvailableTimeSlots\<close> that is rejected: both
  functions answer with the empty list, not with a failure.
\<close>

theorem failures_swallowed_counterexample:
  "failing ''u'' 0 (addDays 0 30) = Inl (Rejected ''fetch failed'') \<and>
   findEvents failing ''u'' ''sync'' 0 = Inr [] \<and>
   unavailable ''u'' ''2024-01-15'' 30 = Inl (Rejected ''timeout'') \<and>
   findOptimalMeetingTime unavailable ''u'' [] 30 ''2024-01-15'' ''2024-01-16'' = Inr []"
  by (simp add: failing_def unavailable_def findEvents_def findOptimalMeetingTime_def)

text \<open>
  Claim C9, as amended. Whenever the fetch succeeds and the snapshot contains the target
  \<open>eventId\<close>, \<open>suggestRescheduling\<close> returns at most 3 alternative slots, none of which starts
  on the calendar day of the target's start; when in addition no event of the snapshot ends
  before it starts, the alternatives are in ascending order of start and each ends no later
  than any later one starts. Without that condition on the events the order can fail (see
  the counterexample).
\<close>

theorem suggestRescheduling_alternatives:
  assumes "getEvents userId now (addDays now 14) = Inr events"
    and "find (\<lambda>event. ev_id event = eventId) events = Some target"
  shows "\<exists>summary alternatives.
           suggestRescheduling tz getEvents userId eventId now = Inr (Success summary alternatives) \<and>
           length alternatives \<le> 3 \<and>
           (\<forall>s \<in> set alternatives. \<not> isSameDay tz (slot_start s) (ev_start target)) \<and>
           (wellFormed events \<longrightarrow>
              sorted (map slot_start alternatives) \<and>
              sorted_wrt (\<lambda>s t. slot_end s \<le> slot_start t) alternatives)"
proof -
  define m where "m = (ev_end target - ev_start target) div (1000 * 60)"
  define slots where "slots = scanRange tz now (addDays now 14) (of_int m) events"
  define alternatives where
    "alternatives = take 3 (filter (\<lambda>slot. \<not> isSameDay tz (slot_start slot) (ev_start target)) slots)"
  define summary where
    "summary = \<lparr> sum_id = ev_id target, sum_title = title target, sum_start = ev_start target,
                 sum_end = ev_end target, sum_duration = m \<rparr>"
  have run: "suggestRescheduling tz getEvents userId eventId now = Inr (Success summary alternatives)"
    using assms
    by (simp add: suggestRescheduling_def findFreeTimeSlots_def Let_def
        m_def slots_def alternatives_def summary_def)
  have len: "length alternatives \<le> 3"
    by (simp add: alternatives_def)
  have other: "\<forall>s \<in> set alternatives. \<not> isSameDay tz (slot_start s) (ev_start target)"
    by (auto simp: alternatives_def dest: in_set_takeD)
  have ordered: "sorted (map slot_start alternatives) \<and>
      sorted_wrt (\<lambda>s t. slot_end s \<le> slot_start t) alternatives" if wf: "wellFormed events"
  proof -
    from assms(2) have "target \<in> set events"
      by (auto simp: find_Some_iff)
    with wf have "ev_start target \<le> ev_end target"
      by (simp add: wellFormed_iff)
    then have m: "(0::rat) \<le> of_int m"
      by (simp add: m_def pos_imp_zdiv_nonneg_iff)
    have "sorted_wrt (\<lambda>s t. slot_start s \<le> slot_start t) slots"
      unfolding slots_def using m wf by (rule scanRange_ascending)
    then have "sorted_wrt (\<lambda>s t. slot_start s \<le> slot_start t) alternatives"
      unfolding alternatives_def by (intro sorted_wrt_take sorted_wrt_filter)
    then have asc: "sorted (map slot_start alternatives)"
      by (simp add: sorted_map)
    have "sorted_wrt (\<lambda>s t. slot_end s \<le> slot_start t) slots"
      unfolding slots_def using m wf by (rule scanRange_sorted)
    then have "sorted_wrt (\<lambda>s t. slot_end s \<le> slot_start t) alternatives"
      unfolding alternatives_def by (intro sorted_wrt_take sorted_wrt_filter)
    with asc show ?thesis by simp
  qed
  from run len other ordered show ?thesis by blast
qed

theorem suggestRescheduling_alternatives_witness:
  "snapshot twoMeetings ''u'' (onDay 0 8 0) (addDays (onDay 0 8 0) 14) = Inr twoMeetings \<and>
   find (\<lambda>event. ev_id event = ''standup'') twoMeetings = Some (hd twoMeetings) \<and>
   wellFormed twoMeetings \<and>
   (\<exists>summary alternatives.
      suggestRescheduling 0 (snapshot twoMeetings) ''u'' ''standup'' (onDay 0 8 0) =
        Inr (Success summary alternatives) \<and>
      map span alternatives =
        [(onDay 1 9 0, onDay 1 17 0), (onDay 2 9 0, onDay 2 17 0), (onDay 3 9 0, onDay 3 17 0)] \<and>
      length alternatives \<le> 3 \<and>
      list_all (\<lambda>s. \<not> isSameDay 0 (slot_start s) (ev_start (hd twoMeetings))) alternatives \<and>
      sorted (map slot_start alternatives) \<and>
      sorted_wrt (\<lambda>s t. slot_end s \<le> slot_start t) alternatives)"
proof -
  have fetched: "snapshot twoMeetings ''u'' (onDay 0 8 0) (addDays (onDay 0 8 0) 14) = Inr twoMeetings"
    by (simp add: snapshot_def)
  have found: "find (\<lambda>event. ev_id event = ''standup'') twoMeetings = Some (hd twoMeetings)"
    by (simp add: twoMeetings_def meeting_def)
  have wf: "wellFormed twoMeetings"
    by (simp add: wellFormed_def twoMeetings_def meeting_def onDay_def)
  have run: "map_sum id (\<lambda>r. map span (alternativeSlots r))
      (suggestRescheduling 0 (snapshot twoMeetings) ''u'' ''standup'' (onDay 0 8 0)) =
      Inr [(onDay 1 9 0, onDay 1 17 0), (onDay 2 9 0, onDay 2 17 0), (onDay 3 9 0, onDay 3 17 0)]"
    by code_simp
  from suggestRescheduling_alternatives [where getEvents = "snapshot twoMeetings"
      and userId = "''u''" and now = "onDay 0 8 0" and eventId = "''standup''" and tz = 0,
      OF fetched found] wf
  obtain summary alternatives where
    r: "suggestRescheduling 0 (snapshot twoMeetings) ''u'' ''standup'' (onDay 0 8 0) =
        Inr (Success summary alternatives)"
    and len: "length alternatives \<le> 3"
    and other: "\<forall>s \<in> set alternatives. \<not> isSameDay 0 (slot_start s) (ev_start (hd twoMeetings))"
    and asc: "sorted (map slot_start alternatives)"
    and apart: "sorted_wrt (\<lambda>s t. slot_end s \<le> slot_start t) alternatives"
    by blast
  from run r have spans: "map span alternatives =
        [(onDay 1 9 0, onDay 1 17 0), (onDay 2 9 0, onDay 2 17 0), (onDay 3 9 0, onDay 3 17 0)]"
    by simp
  from other have other': "list_all (\<lambda>s. \<not> isSameDay 0 (slot_start s) (ev_start (hd twoMeetings)))
      alternatives"
    by (simp add: list_all_iff)
  from fetched found wf r spans len other' asc apart show ?thesis
    by - (intro conjI exI [of _ summary] exI [of _ alternatives]; assumption)
qed

text \<open>
  The target is on Monday 09:00-09:30, so \<open>minDurationMinutes = 30\<close>. On Tuesday there is a
  meeting 09:00-11:00 and an event with start 12:00 and end 10:00. Tuesday's slots are
  11:00-12:00 and then 10:00-17:00, and the three alternatives returned are not ascending.
\<close>

theorem suggestRescheduling_alternatives_counterexample:
  "find (\<lambda>event. ev_id event = ''target'') withReversed = Some (hd withReversed) \<and>
   map_sum id (\<lambda>r. map span (alternativeSlots r))
     (suggestRescheduling 0 (snapshot withReversed) ''u'' ''target'' (onDay 0 8 0)) =
     Inr [(onDay 1 11 0, onDay 1 12 0), (onDay 1 10 0, onDay 1 17 0), (onDay 2 9 0, onDay 2 17 0)] \<and>
   \<not> sorted [onDay 1 11 0, onDay 1 10 0, onDay 2 9 0]"
proof (intro conjI)
  show "find (\<lambda>event. ev_id event = ''target'') withReversed = Some (hd withReversed)"
    by (simp add: withReversed_def meeting_def)
  show "map_sum id (\<lambda>r. map span (alternativeSlots r))
     (suggestRescheduling 0 (snapshot withReversed) ''u'' ''target'' (onDay 0 8 0)) =
     Inr [(onDay 1 11 0, onDay 1 12 0), (onDay 1 10 0, onDay 1 17 0), (onDay 2 9 0, onDay 2 17 0)]"
    by code_simp
  show "\<not> sorted [onDay 1 11 0, onDay 1 10 0, onDay 2 9 0]"
    by (simp add: onDay_def)
qed

end
